theory Spec2Isabelle
  imports Main "HOL-Library.Multiset"
begin

section \<open>Text utilities (utils.py)\<close>

text \<open>
  Python strings are modelled as \<^typ>\<open>string\<close>; a \<^typ>\<open>char\<close> stands for a code point
  below 256. \<open>isspace\<close> is the whitespace test shared by \<^verbatim>\<open>str.strip()\<close> and the
  regular expression class \<^verbatim>\<open>\s\<close> on \<^verbatim>\<open>str\<close> patterns: the code points 9 to 13,
  28 to 31, 32, 133 and 160.
\<close>

definition isspace :: "char \<Rightarrow> bool" where
  "isspace c = ((of_char c :: nat) \<in> {9, 10, 11, 12, 13, 28, 29, 30, 31, 32, 133, 160})"

definition NUL :: char where
  "NUL = CHR 0x00"

definition NL :: char where
  "NL = CHR 0x0A"

text \<open>\<^verbatim>\<open>text.replace("\x00", "")\<close>: every NUL character is dropped.\<close>

definition replace_nul :: "string \<Rightarrow> string" where
  "replace_nul text = filter (\<lambda>c. c \<noteq> NUL) text"

text \<open>
  \<^verbatim>\<open>re.sub(p + '+', r, text)\<close> for a one-character class \<open>p\<close> and a one-character
  replacement \<open>r\<close>: scanning from the left, each maximal run of characters of the class
  is replaced by \<open>r\<close>.
\<close>

function re_sub_plus :: "(char \<Rightarrow> bool) \<Rightarrow> char \<Rightarrow> string \<Rightarrow> string" where
  "re_sub_plus p r [] = []"
| "re_sub_plus p r (c # cs) =
     (if p c then r # re_sub_plus p r (dropWhile p cs) else c # re_sub_plus p r cs)"
  by pat_completeness auto
termination
  by (relation "measure (\<lambda>(p, r, cs). length cs)")
     (auto simp: length_dropWhile_le less_Suc_eq_le)

text \<open>\<^verbatim>\<open>text.strip()\<close>: leading and trailing whitespace is removed.\<close>

definition strip :: "string \<Rightarrow> string" where
  "strip text = rev (dropWhile isspace (rev (dropWhile isspace text)))"

text \<open>
  \<^verbatim>\<open>
  def clean_text(text):
      if not text:
          return ""
      text = text.replace("\x00", "")
      text = re.sub(r'\s+', ' ', text)
      text = re.sub(r'\n+', '\n', text)
      return text.strip()
  \<close>
\<close>

definition clean_text :: "string \<Rightarrow> string" where
  "clean_text text =
     (if text = [] then []
      else strip (re_sub_plus (\<lambda>c. c = NL) NL
                   (re_sub_plus isspace (CHR '' '') (replace_nul text))))"

section \<open>Exceptions\<close>

text \<open>
  Values of \<open>exn\<close> stand for instances of Python's \<^verbatim>\<open>Exception\<close> class, the class every
  handler of the source names (\<^verbatim>\<open>except Exception\<close>): what the database engine, the
  operating system and the document readers raise when they fail. The payload is the text
  that \<^verbatim>\<open>str(e)\<close> yields.
\<close>

datatype exn =
    IntegrityError string
  | OperationalError string
  | OSError string
  | AttributeError string
  | OtherException string

fun str :: "exn \<Rightarrow> string" where
  "str (IntegrityError m) = m"
| "str (OperationalError m) = m"
| "str (OSError m) = m"
| "str (AttributeError m) = m"
| "str (OtherException m) = m"

text \<open>
  What the body of a \<^verbatim>\<open>with\<close> block can raise: an instance of \<^verbatim>\<open>Exception\<close>, or one of
  the \<^verbatim>\<open>BaseException\<close> classes that do not derive from it. \<open>is_Exception\<close> is the test
  that \<^verbatim>\<open>except Exception\<close> makes.
\<close>

datatype raised =
    Exception exn
  | KeyboardInterrupt
  | SystemExit

fun is_Exception :: "raised \<Rightarrow> bool" where
  "is_Exception (Exception e) = True"
| "is_Exception KeyboardInterrupt = False"
| "is_Exception SystemExit = False"

section \<open>The persistent store (database.py)\<close>

subsection \<open>Tables\<close>

text \<open>
  One record per table row, with the columns of the \<^verbatim>\<open>CREATE TABLE\<close> statements of
  \<^verbatim>\<open>_init_db\<close>. Timestamps are seconds on the database clock. Nullable columns that the
  code reads are options. A table is the list of its rows in rowid order. The
  \<open>seq_\<close> fields are the \<^verbatim>\<open>AUTOINCREMENT\<close> counters: the largest rowid ever handed out.
\<close>

record session_row =
  s_id :: int
  session_name :: string
  s_created_at :: nat
  is_active :: bool
  last_accessed :: nat

record file_row =
  f_id :: int
  f_session_id :: int
  filename :: string
  filepath :: string
  filesize :: "int option"
  content_text :: "string option"
  upload_time :: nat
  file_type :: "string option"

record chat_row =
  c_id :: int
  c_session_id :: int
  question :: string
  answer :: string
  c_created_at :: nat

record store =
  sessions :: "session_row list"
  files :: "file_row list"
  chats :: "chat_row list"
  seq_sessions :: int
  seq_files :: int
  seq_chats :: int

text \<open>A database file on which only the \<^verbatim>\<open>CREATE TABLE IF NOT EXISTS\<close> statements have run.\<close>

definition empty_store :: store where
  "empty_store =
     \<lparr>sessions = [], files = [], chats = [], seq_sessions = 0, seq_files = 0, seq_chats = 0\<rparr>"

subsection \<open>Connection and transactions\<close>

text \<open>
  \<open>disk\<close> is the committed content of the database file; \<open>txn\<close> is what the calling
  thread's connection sees, uncommitted changes included. \<^verbatim>\<open>conn.commit()\<close> copies
  \<open>txn\<close> to \<open>disk\<close>, \<^verbatim>\<open>conn.rollback()\<close> copies \<open>disk\<close> to \<open>txn\<close>.
\<close>

record database =
  disk :: store
  txn :: store

type_synonym 'a work = "database \<Rightarrow> (raised + 'a) \<times> database"

definition commit :: "database \<Rightarrow> database" where
  "commit db = db\<lparr>disk := txn db\<rparr>"

definition rollback :: "database \<Rightarrow> database" where
  "rollback db = db\<lparr>txn := disk db\<rparr>"

text \<open>
  \<^verbatim>\<open>
  @contextmanager
  def get_cursor(self):
      conn = self._get_connection()
      cursor = conn.cursor()
      try:
          yield cursor
          conn.commit()
      except Exception as e:
          conn.rollback()
          raise e
      finally:
          cursor.close()
  \<close>
  The body of the \<^verbatim>\<open>with\<close> block is the \<open>work\<close>; it returns a value or raises, and
  leaves the connection in some state either way. What is raised and is no instance of
  \<^verbatim>\<open>Exception\<close> passes the handler: the connection is neither committed nor rolled back.
\<close>

definition get_cursor :: "'a work \<Rightarrow> 'a work" where
  "get_cursor work db =
     (case work db of
        (Inr v, db') \<Rightarrow> (Inr v, commit db')
      | (Inl r, db') \<Rightarrow> if is_Exception r then (Inl r, rollback db') else (Inl r, db'))"

text \<open>\<^verbatim>\<open>cursor.execute\<close> of a statement that changes rows: it acts on the connection's view.\<close>

definition execute :: "(store \<Rightarrow> store) \<Rightarrow> database \<Rightarrow> database" where
  "execute stmt db = db\<lparr>txn := stmt (txn db)\<rparr>"

subsection \<open>Statements\<close>

text \<open>\<^verbatim>\<open>UPDATE sessions SET is_active = 0\<close>\<close>

definition sql_deactivate_all :: "store \<Rightarrow> store" where
  "sql_deactivate_all st = st\<lparr>sessions := map (\<lambda>r. r\<lparr>is_active := False\<rparr>) (sessions st)\<rparr>"

text \<open>
  \<^verbatim>\<open>INSERT INTO sessions (session_name, is_active) VALUES (?, ?)\<close>: the new rowid is one
  more than the counter, both timestamps default to \<^verbatim>\<open>CURRENT_TIMESTAMP\<close>.
\<close>

definition sql_insert_session :: "string \<Rightarrow> bool \<Rightarrow> nat \<Rightarrow> store \<Rightarrow> store" where
  "sql_insert_session name active now st =
     st\<lparr>sessions := sessions st @
            [\<lparr>s_id = seq_sessions st + 1, session_name = name, s_created_at = now,
              is_active = active, last_accessed = now\<rparr>],
        seq_sessions := seq_sessions st + 1\<rparr>"

text \<open>
  \<^verbatim>\<open>UPDATE sessions SET is_active = 1, last_accessed = CURRENT_TIMESTAMP WHERE id = ?\<close>
\<close>

definition sql_activate :: "int \<Rightarrow> nat \<Rightarrow> store \<Rightarrow> store" where
  "sql_activate sid now st =
     st\<lparr>sessions := map (\<lambda>r. if s_id r = sid then r\<lparr>is_active := True, last_accessed := now\<rparr>
                             else r) (sessions st)\<rparr>"

text \<open>\<^verbatim>\<open>UPDATE sessions SET last_accessed = CURRENT_TIMESTAMP WHERE id = ?\<close>\<close>

definition sql_touch_session :: "int \<Rightarrow> nat \<Rightarrow> store \<Rightarrow> store" where
  "sql_touch_session sid now st =
     st\<lparr>sessions := map (\<lambda>r. if s_id r = sid then r\<lparr>last_accessed := now\<rparr> else r)
                        (sessions st)\<rparr>"

text \<open>\<^verbatim>\<open>cursor.rowcount\<close> after a statement with \<^verbatim>\<open>WHERE id = ?\<close> on sessions.\<close>

definition rowcount_session :: "int \<Rightarrow> store \<Rightarrow> nat" where
  "rowcount_session sid st = length (filter (\<lambda>r. s_id r = sid) (sessions st))"

text \<open>
  \<^verbatim>\<open>DELETE FROM sessions WHERE id = ?\<close> with foreign keys enforced
  (\<^verbatim>\<open>PRAGMA foreign_keys = ON\<close>): \<^verbatim>\<open>ON DELETE CASCADE\<close> removes the files and chats that
  reference a deleted session.
\<close>

definition sql_delete_session :: "int \<Rightarrow> store \<Rightarrow> store" where
  "sql_delete_session sid st =
     (if rowcount_session sid st = 0 then st
      else st\<lparr>sessions := filter (\<lambda>r. s_id r \<noteq> sid) (sessions st),
              files := filter (\<lambda>f. f_session_id f \<noteq> sid) (files st),
              chats := filter (\<lambda>c. c_session_id c \<noteq> sid) (chats st)\<rparr>)"

text \<open>The foreign key check of an insert into files or chats.\<close>

definition session_exists :: "int \<Rightarrow> store \<Rightarrow> bool" where
  "session_exists sid st = (sid \<in> set (map s_id (sessions st)))"

text \<open>
  \<^verbatim>\<open>INSERT INTO files (session_id, filename, filepath, filesize, content_text, file_type)\<close>
\<close>

definition sql_insert_file ::
  "int \<Rightarrow> string \<Rightarrow> string \<Rightarrow> int option \<Rightarrow> string option \<Rightarrow> string option \<Rightarrow> nat
   \<Rightarrow> store \<Rightarrow> store" where
  "sql_insert_file sid name path fsize content ftype now st =
     st\<lparr>files := files st @
            [\<lparr>f_id = seq_files st + 1, f_session_id = sid, filename = name, filepath = path,
              filesize = fsize, content_text = content, upload_time = now, file_type = ftype\<rparr>],
        seq_files := seq_files st + 1\<rparr>"

text \<open>\<^verbatim>\<open>INSERT INTO chats (session_id, question, answer) VALUES (?, ?, ?)\<close>\<close>

definition sql_insert_chat :: "int \<Rightarrow> string \<Rightarrow> string \<Rightarrow> nat \<Rightarrow> store \<Rightarrow> store" where
  "sql_insert_chat sid q a now st =
     st\<lparr>chats := chats st @
            [\<lparr>c_id = seq_chats st + 1, c_session_id = sid, question = q, answer = a,
              c_created_at = now\<rparr>],
        seq_chats := seq_chats st + 1\<rparr>"

subsection \<open>Session management\<close>

text \<open>
  \<^verbatim>\<open>
  def _ensure_active_session(self):
      with self.get_cursor() as cursor:
          cursor.execute('SELECT id FROM sessions WHERE is_active = 1 LIMIT 1')
          if not cursor.fetchone():
              cursor.execute('INSERT INTO sessions (session_name, is_active) VALUES (?, ?)',
                           ('Default Session', 1))
  \<close>
\<close>

definition ensure_active_session :: "nat \<Rightarrow> unit work" where
  "ensure_active_session now =
     get_cursor (\<lambda>db.
       (case find is_active (sessions (txn db)) of
          None \<Rightarrow> (Inr (), execute (sql_insert_session ''Default Session'' True now) db)
        | Some r \<Rightarrow> (Inr (), db)))"

text \<open>
  \<^verbatim>\<open>_init_db\<close>: the \<^verbatim>\<open>CREATE ... IF NOT EXISTS\<close> statements change no row; then the
  repair step runs.
\<close>

definition init_db :: "nat \<Rightarrow> unit work" where
  "init_db now db =
     (case get_cursor (\<lambda>d. (Inr (), d)) db of
        (Inl e, db') \<Rightarrow> (Inl e, db')
      | (Inr u, db') \<Rightarrow> ensure_active_session now db')"

text \<open>
  \<^verbatim>\<open>
  def create_session(self, session_name=None):
      if not session_name:
          session_name = f"Session {datetime.now().strftime('%Y-%m-%d %H:%M')}"
      with self.get_cursor() as cursor:
          cursor.execute('UPDATE sessions SET is_active = 0')
          cursor.execute('INSERT INTO sessions (session_name, is_active) VALUES (?, ?)',
                       (session_name, 1))
          return cursor.lastrowid
  \<close>
  \<open>stamp\<close> is the formatted wall-clock time.
\<close>

definition create_session :: "string option \<Rightarrow> string \<Rightarrow> nat \<Rightarrow> int work" where
  "create_session name stamp now =
     (let session_name' = (case name of
                    None \<Rightarrow> ''Session '' @ stamp
                  | Some n \<Rightarrow> if n = [] then ''Session '' @ stamp else n)
      in get_cursor (\<lambda>db.
           let db1 = execute sql_deactivate_all db;
               db2 = execute (sql_insert_session session_name' True now) db1
           in (Inr (seq_sessions (txn db2)), db2)))"

text \<open>
  \<^verbatim>\<open>
  def set_active_session(self, session_id):
      with self.get_cursor() as cursor:
          cursor.execute('UPDATE sessions SET is_active = 0')
          cursor.execute('UPDATE sessions SET is_active = 1, last_accessed = CURRENT_TIMESTAMP
                          WHERE id = ?', (session_id,))
          return cursor.rowcount > 0
  \<close>
\<close>

definition set_active_session :: "int \<Rightarrow> nat \<Rightarrow> bool work" where
  "set_active_session session_id now =
     get_cursor (\<lambda>db.
       let db1 = execute sql_deactivate_all db;
           n = rowcount_session session_id (txn db1);
           db2 = execute (sql_activate session_id now) db1
       in (Inr (n > 0), db2))"

text \<open>
  \<^verbatim>\<open>
  def delete_session(self, session_id):
      with self.get_cursor() as cursor:
          cursor.execute('DELETE FROM sessions WHERE id = ?', (session_id,))
          if cursor.rowcount > 0:
              self._ensure_active_session()
              return True
      return False
  \<close>
  The repair step runs inside the \<^verbatim>\<open>with\<close> block, on the same connection.
\<close>

definition delete_session :: "int \<Rightarrow> nat \<Rightarrow> bool work" where
  "delete_session session_id now =
     get_cursor (\<lambda>db.
       let n = rowcount_session session_id (txn db);
           db1 = execute (sql_delete_session session_id) db
       in if n > 0
          then (case ensure_active_session now db1 of
                  (Inl e, db2) \<Rightarrow> (Inl e, db2)
                | (Inr u, db2) \<Rightarrow> (Inr True, db2))
          else (Inr False, db1))"

subsection \<open>File and chat management\<close>

text \<open>
  \<^verbatim>\<open>add_file\<close>: the insert, then the update of the owning session, in one \<^verbatim>\<open>with\<close>
  block. An insert whose \<^verbatim>\<open>session_id\<close> names no session fails the foreign key check and
  raises \<^verbatim>\<open>sqlite3.IntegrityError\<close>. The two statements read the clock separately.
\<close>

definition add_file ::
  "int \<Rightarrow> string \<Rightarrow> string \<Rightarrow> int option \<Rightarrow> string option \<Rightarrow> string option \<Rightarrow> nat \<Rightarrow> nat
   \<Rightarrow> int work" where
  "add_file session_id name path fsize content ftype now_insert now_update =
     get_cursor (\<lambda>db.
       if \<not> session_exists session_id (txn db)
       then (Inl (Exception (IntegrityError ''FOREIGN KEY constraint failed'')), db)
       else let db1 = execute (sql_insert_file session_id name path fsize content ftype
                                 now_insert) db;
                db2 = execute (sql_touch_session session_id now_update) db1
            in (Inr (seq_files (txn db2)), db2))"

text \<open>
  \<^verbatim>\<open>
  def get_file_content(self, file_id):
      with self.get_cursor() as cursor:
          cursor.execute('SELECT content_text FROM files WHERE id = ?', (file_id,))
          row = cursor.fetchone()
          return row[0] if row else ""
  \<close>
  The result is a Python value: \<open>None\<close> for Python's \<^verbatim>\<open>None\<close> (a NULL column).
\<close>

definition get_file_content :: "int \<Rightarrow> string option work" where
  "get_file_content file_id =
     get_cursor (\<lambda>db.
       (Inr (case find (\<lambda>f. f_id f = file_id) (files (txn db)) of
               Some row \<Rightarrow> content_text row
             | None \<Rightarrow> Some []), db))"

text \<open>\<^verbatim>\<open>sep.join(xs)\<close>\<close>

fun py_join :: "string \<Rightarrow> string list \<Rightarrow> string" where
  "py_join sep [] = []"
| "py_join sep [x] = x"
| "py_join sep (x # y # ys) = x @ sep @ py_join sep (y # ys)"

text \<open>
  \<^verbatim>\<open>
  def get_session_content(self, session_id):
      with self.get_cursor() as cursor:
          cursor.execute('SELECT content_text FROM files
              WHERE session_id = ? AND content_text IS NOT NULL AND content_text != \'\'',
              (session_id,))
          contents = [row[0] for row in cursor.fetchall()]
          return "\n\n".join(contents)
  \<close>
\<close>

definition get_session_content :: "int \<Rightarrow> string work" where
  "get_session_content session_id =
     get_cursor (\<lambda>db.
       let contents = map (the \<circ> content_text)
                        (filter (\<lambda>f. f_session_id f = session_id \<and> content_text f \<noteq> None
                                      \<and> content_text f \<noteq> Some [])
                           (files (txn db)))
       in (Inr (py_join [NL, NL] contents), db))"

text \<open>\<^verbatim>\<open>add_chat\<close>: as \<^verbatim>\<open>add_file\<close>, on the chats table.\<close>

definition add_chat :: "int \<Rightarrow> string \<Rightarrow> string \<Rightarrow> nat \<Rightarrow> nat \<Rightarrow> int work" where
  "add_chat session_id q a now_insert now_update =
     get_cursor (\<lambda>db.
       if \<not> session_exists session_id (txn db)
       then (Inl (Exception (IntegrityError ''FOREIGN KEY constraint failed'')), db)
       else let db1 = execute (sql_insert_chat session_id q a now_insert) db;
                db2 = execute (sql_touch_session session_id now_update) db1
            in (Inr (seq_chats (txn db2)), db2))"

subsection \<open>Integrity of the sessions table\<close>

text \<open>
  What the schema guarantees of the sessions table: \<^verbatim>\<open>id\<close> is the primary key, and with
  \<^verbatim>\<open>AUTOINCREMENT\<close> no row has an id above the counter.
\<close>

definition wf_sessions :: "store \<Rightarrow> bool" where
  "wf_sessions st =
     (distinct (map s_id (sessions st)) \<and> list_all (\<lambda>r. s_id r \<le> seq_sessions st) (sessions st))"

text \<open>\<^verbatim>\<open>SELECT COUNT(*) FROM sessions WHERE is_active = 1\<close>, as \<^verbatim>\<open>get_stats\<close> reads it.\<close>

definition active_sessions :: "store \<Rightarrow> nat" where
  "active_sessions st = length (filter is_active (sessions st))"

subsection \<open>Sequences of session calls\<close>

text \<open>
  A call of the session lifecycle, with the clock readings it makes, and the state a
  sequence of calls leaves. \<open>initial_db\<close> is the store that \<^verbatim>\<open>Database()\<close> builds on a
  new database file.
\<close>

datatype call =
    CreateSession "string option" string nat
  | SetActiveSession int nat
  | DeleteSession int nat

fun run_call :: "call \<Rightarrow> database \<Rightarrow> database" where
  "run_call (CreateSession name stamp now) d = snd (create_session name stamp now d)"
| "run_call (SetActiveSession sid now) d = snd (set_active_session sid now d)"
| "run_call (DeleteSession sid now) d = snd (delete_session sid now d)"

fun run_calls :: "call list \<Rightarrow> database \<Rightarrow> database" where
  "run_calls [] d = d"
| "run_calls (c # cs) d = run_calls cs (run_call c d)"

text \<open>Every \<open>SetActiveSession\<close> of the sequence names a session that exists when it runs.\<close>

fun targets_exist :: "call list \<Rightarrow> database \<Rightarrow> bool" where
  "targets_exist [] d = True"
| "targets_exist (SetActiveSession sid now # cs) d =
     (session_exists sid (txn d) \<and> targets_exist cs (run_call (SetActiveSession sid now) d))"
| "targets_exist (c # cs) d = targets_exist cs (run_call c d)"

definition initial_db :: "nat \<Rightarrow> database" where
  "initial_db now = snd (init_db now \<lparr>disk = empty_store, txn = empty_store\<rparr>)"

subsection \<open>Reset\<close>

text \<open>
  \<^verbatim>\<open>clear_all_data\<close> acts on the database file and on the uploaded files. \<open>uploads\<close> is the
  set of paths that exist on disk. The outcome of each call into the operating system or
  the database engine is given by the environment: \<open>None\<close> when the call succeeds, the
  exception when it raises.
\<close>

record world =
  w_db :: database
  uploads :: "string set"

record env =
  select_error :: "exn option"
  remove_db_error :: "exn option"
  remove_error :: "string \<Rightarrow> exn option"
  makedirs_error :: "exn option"
  init_error :: "exn option"

text \<open>
  \<^verbatim>\<open>
  for filepath in file_paths:
      if filepath and os.path.exists(filepath):
          try:
              os.remove(filepath)
          except:
              pass
  \<close>
\<close>

fun remove_uploads :: "env \<Rightarrow> string list \<Rightarrow> string set \<Rightarrow> string set" where
  "remove_uploads ev [] up = up"
| "remove_uploads ev (p # ps) up =
     (if p \<noteq> [] \<and> p \<in> up
      then (case remove_error ev p of
              None \<Rightarrow> remove_uploads ev ps (up - {p})
            | Some e \<Rightarrow> remove_uploads ev ps up)
      else remove_uploads ev ps up)"

text \<open>
  The body of the \<^verbatim>\<open>try\<close> block of \<^verbatim>\<open>clear_all_data\<close>, statement by statement: read the
  file paths under \<^verbatim>\<open>get_cursor\<close>; close the connection; remove the database file (the next
  connection then opens a new, empty one); remove the uploaded files; recreate the
  directory; run \<^verbatim>\<open>_init_db\<close>.
\<close>

definition clear_all_data_body :: "env \<Rightarrow> nat \<Rightarrow> world \<Rightarrow> (raised + unit) \<times> world" where
  "clear_all_data_body ev now w =
     (case get_cursor (\<lambda>d. case select_error ev of
                               Some e \<Rightarrow> (Inl (Exception e), d)
                             | None \<Rightarrow> (Inr (map filepath (files (txn d))), d)) (w_db w) of
        (Inl r, d1) \<Rightarrow> (Inl r, w\<lparr>w_db := d1\<rparr>)
      | (Inr file_paths, d1) \<Rightarrow>
          let w1 = w\<lparr>w_db := rollback d1\<rparr> in
          (case remove_db_error ev of
             Some e \<Rightarrow> (Inl (Exception e), w1)
           | None \<Rightarrow>
               let w2 = w1\<lparr>w_db := \<lparr>disk = empty_store, txn = empty_store\<rparr>\<rparr>;
                   w3 = w2\<lparr>uploads := remove_uploads ev file_paths (uploads w2)\<rparr>
               in (case makedirs_error ev of
                     Some e \<Rightarrow> (Inl (Exception e), w3)
                   | None \<Rightarrow>
                       (case init_error ev of
                          Some e \<Rightarrow> (Inl (Exception e), w3)
                        | None \<Rightarrow>
                            (case init_db now (w_db w3) of
                               (Inl r, d4) \<Rightarrow> (Inl r, w3\<lparr>w_db := d4\<rparr>)
                             | (Inr u, d4) \<Rightarrow> (Inr (), w3\<lparr>w_db := d4\<rparr>))))))"


section \<open>Text extraction (utils.py)\<close>

text \<open>\<^verbatim>\<open>str.lower()\<close> on code points below 256.\<close>

definition lower_char :: "char \<Rightarrow> char" where
  "lower_char c =
     (let n = (of_char c :: nat)
      in if (65 \<le> n \<and> n \<le> 90) \<or> (192 \<le> n \<and> n \<le> 222 \<and> n \<noteq> 215)
         then char_of (n + 32) else c)"

definition lower :: "string \<Rightarrow> string" where
  "lower s = map lower_char s"

text \<open>\<^verbatim>\<open>s.endswith(suffix)\<close>\<close>

definition endswith :: "string \<Rightarrow> string \<Rightarrow> bool" where
  "endswith s suffix =
     (length suffix \<le> length s \<and> drop (length s - length suffix) s = suffix)"

text \<open>\<^verbatim>\<open>sub in s\<close>\<close>

fun py_in :: "string \<Rightarrow> string \<Rightarrow> bool" where
  "py_in sub [] = (sub = [])"
| "py_in sub (c # cs) = (take (length sub) (c # cs) = sub \<or> py_in sub cs)"

text \<open>
  The document readers are libraries outside the repository (\<^verbatim>\<open>pypdf\<close>, \<^verbatim>\<open>open\<close>,
  \<^verbatim>\<open>python-docx\<close>): each maps a path to the raw text it reads, or raises.
\<close>

record readers =
  read_pdf :: "string \<Rightarrow> exn + string"
  read_txt :: "string \<Rightarrow> exn + string"
  read_docx :: "string \<Rightarrow> exn + string"

text \<open>
  \<^verbatim>\<open>extract_pdf\<close>, \<^verbatim>\<open>extract_txt\<close>, \<^verbatim>\<open>extract_docx\<close>: the reader runs under
  \<^verbatim>\<open>try\<close>, a failure becomes a message, the text read is cleaned.
\<close>

definition extract_pdf :: "readers \<Rightarrow> string \<Rightarrow> string" where
  "extract_pdf rd file_path =
     (case read_pdf rd file_path of
        Inl e \<Rightarrow> ''Error reading PDF: '' @ str e
      | Inr text \<Rightarrow> clean_text text)"

definition extract_txt :: "readers \<Rightarrow> string \<Rightarrow> string" where
  "extract_txt rd file_path =
     (case read_txt rd file_path of
        Inl e \<Rightarrow> ''Error reading TXT: '' @ str e
      | Inr text \<Rightarrow> clean_text text)"

definition extract_docx :: "readers \<Rightarrow> string \<Rightarrow> string" where
  "extract_docx rd file_path =
     (case read_docx rd file_path of
        Inl e \<Rightarrow> ''Error reading DOCX: '' @ str e
      | Inr text \<Rightarrow> clean_text text)"

text \<open>
  The body of the \<^verbatim>\<open>try\<close> block of \<^verbatim>\<open>extract_text_from_file\<close>. The declared type is a
  Python value; on \<^verbatim>\<open>None\<close> the call \<^verbatim>\<open>file_type.lower()\<close> raises.
\<close>

definition extract_dispatch :: "readers \<Rightarrow> string \<Rightarrow> string option \<Rightarrow> exn + string" where
  "extract_dispatch rd file_path file_type' =
     (case file_type' of
        None \<Rightarrow> Inl (AttributeError ([CHR 0x27] @ ''NoneType'' @ [CHR 0x27] @ '' object has no attribute ''
                                 @ [CHR 0x27] @ ''lower'' @ [CHR 0x27]))
      | Some ft \<Rightarrow>
          Inr (if py_in ''pdf'' (lower ft) \<or> endswith file_path ''.pdf''
               then extract_pdf rd file_path
               else if py_in ''text'' (lower ft) \<or> endswith file_path ''.txt''
               then extract_txt rd file_path
               else if py_in ''word'' (lower ft) \<or> endswith file_path ''.docx''
               then extract_docx rd file_path
               else if endswith file_path ''.pdf'' then extract_pdf rd file_path
               else if endswith file_path ''.txt'' then extract_txt rd file_path
               else if endswith file_path ''.docx'' then extract_docx rd file_path
               else ''Unsupported file format: '' @ ft))"

text \<open>
  \<^verbatim>\<open>
  def extract_text_from_file(file_path, file_type):
      try:
          ...
      except Exception as e:
          return f"Error extracting text: {str(e)}"
  \<close>
  The result is \<open>Inl\<close> when an exception leaves the function.
\<close>

definition extract_text_from_file :: "readers \<Rightarrow> string \<Rightarrow> string option \<Rightarrow> exn + string" where
  "extract_text_from_file rd file_path file_type' =
     (case extract_dispatch rd file_path file_type' of
        Inr text \<Rightarrow> Inr text
      | Inl e \<Rightarrow> Inr (''Error extracting text: '' @ str e))"

section \<open>Invariant and example data\<close>

text \<open>
  The state the session lifecycle keeps: the sessions table satisfies its key constraints,
  exactly one session is active, and no transaction is open.
\<close>

definition session_inv :: "database \<Rightarrow> bool" where
  "session_inv d = (wf_sessions (txn d) \<and> active_sessions (txn d) = 1 \<and> disk d = txn d)"

text \<open>
  A store with the default session (id 1) and an active session A (id 2) that owns three
  files, one of them with empty text, and one chat turn.
\<close>

definition example_db :: database where
  "example_db =
     snd (add_chat 2 ''What color is the sky?'' ''Blue.'' 6 6
       (snd (add_file 2 ''empty.txt'' ''data/uploads/empty.txt'' (Some 0) (Some [])
               (Some ''text/plain'') 5 5
         (snd (add_file 2 ''grass.txt'' ''data/uploads/grass.txt'' (Some 15)
                 (Some ''Grass is green.'') (Some ''text/plain'') 4 4
           (snd (add_file 2 ''sky.txt'' ''data/uploads/sky.txt'' (Some 16)
                   (Some ''The sky is blue.'') (Some ''text/plain'') 3 3
             (run_calls [CreateSession (Some ''A'') ''2024-01-01 10:00'' 1]
                (initial_db 0)))))))))"




text \<open>
  Two bodies of a \<^verbatim>\<open>with\<close> block. The first is the body of \<^verbatim>\<open>delete_session(1)\<close> up to and
  including the repair step, followed by a failing statement. The second deactivates every
  session and is then interrupted from the keyboard.
\<close>

definition work_repairs_then_fails :: "bool work" where
  "work_repairs_then_fails d =
     (Inl (Exception (OperationalError ''disk I/O error'')),
      snd (ensure_active_session 5 (execute (sql_delete_session 1) d)))"

definition work_interrupted :: "bool work" where
  "work_interrupted d = (Inl KeyboardInterrupt, execute sql_deactivate_all d)"

text \<open>The example store after a file without text (a NULL column) is added to session 2.\<close>

definition example_db_null_text :: database where
  "example_db_null_text =
     snd (add_file 2 ''scan.pdf'' ''data/uploads/scan.pdf'' (Some 10) None
            (Some ''application/pdf'') 7 7 example_db)"

text \<open>Readers that fail on every path.\<close>

definition failing_readers :: readers where
  "failing_readers =
     \<lparr>read_pdf = (\<lambda>p. Inl (OSError ''No such file or directory'')),
      read_txt = (\<lambda>p. Inl (OSError ''Permission denied'')),
      read_docx = (\<lambda>p. Inl (OtherException ''Package not found''))\<rparr>"

section \<open>Properties of the text utilities\<close>

subsection \<open>Normalisation\<close>

lemma re_sub_plus_Nil_iff: "re_sub_plus p r s = [] \<longleftrightarrow> s = []"
  by (cases s) auto

lemma hd_re_sub_ws:
  "s \<noteq> [] \<Longrightarrow> \<not> isspace (hd s) \<Longrightarrow> hd (re_sub_plus isspace r s) = hd s"
  by (cases s) auto

lemma nows_re_sub: "isspace r \<Longrightarrow> successively (\<lambda>a b. \<not> (isspace a \<and> isspace b)) (re_sub_plus isspace r s)"
proof (induction isspace r s rule: re_sub_plus.induct)
  case (1 r)
  then show ?case by simp
next
  case (2 r c cs)
  show ?case
  proof (cases "isspace c")
    case True
    let ?t = "dropWhile isspace cs"
    have ih: "successively (\<lambda>a b. \<not> (isspace a \<and> isspace b)) (re_sub_plus isspace r ?t)" using 2 True by simp
    show ?thesis
    proof (cases "?t = []")
      case True
      then have "re_sub_plus isspace r ?t = []" by (simp only: re_sub_plus.simps)
      with \<open>isspace c\<close> show ?thesis by simp
    next
      case False
      then have "\<not> isspace (hd ?t)" by (rule hd_dropWhile)
      with False have "\<not> isspace (hd (re_sub_plus isspace r ?t))"
        by (simp add: hd_re_sub_ws)
      with ih \<open>isspace c\<close> show ?thesis
        by (simp add: successively_Cons)
    qed
  next
    case False
    with 2 show ?thesis by (simp add: successively_Cons)
  qed
qed

lemma set_re_sub: "set (re_sub_plus p r s) \<subseteq> insert r {c \<in> set s. \<not> p c}"
proof (induction p r s rule: re_sub_plus.induct)
  case (1 p r)
  then show ?case by simp
next
  case (2 p r c cs)
  then show ?case by (auto dest: set_dropWhileD)
qed

lemma re_sub_id:
  "successively (\<lambda>a b. \<not> (p a \<and> p b)) s \<Longrightarrow> \<forall>c \<in> set s. p c \<longrightarrow> c = r \<Longrightarrow> re_sub_plus p r s = s"
proof (induction p r s rule: re_sub_plus.induct)
  case (1 p r)
  then show ?case by simp
next
  case (2 p r c cs)
  show ?case
  proof (cases "p c")
    case True
    from 2(3) True have "cs = [] \<or> \<not> p (hd cs)" by (auto simp: successively_Cons)
    then have dw: "dropWhile p cs = cs" by (simp add: dropWhile_eq_self_iff)
    from 2(3) have "successively (\<lambda>a b. \<not> (p a \<and> p b)) cs" by (auto simp: successively_Cons)
    with 2(1)[OF True] dw 2(4) have "re_sub_plus p r cs = cs" by simp
    with True dw 2(4) show ?thesis by simp
  next
    case False
    from 2(3) have "successively (\<lambda>a b. \<not> (p a \<and> p b)) cs" by (auto simp: successively_Cons)
    with 2(2)[OF False] 2(4) False show ?thesis by simp
  qed
qed

lemma rev_dropWhile_split: "xs = rev (dropWhile P (rev xs)) @ rev (takeWhile P (rev xs))"
  by (metis rev_append rev_rev_ident takeWhile_dropWhile_id)

lemma strip_prefix_suffix: "\<exists>a b. s = a @ strip s @ b \<and> (\<forall>c \<in> set a. isspace c) \<and> (\<forall>c \<in> set b. isspace c)"
proof -
  let ?t = "dropWhile isspace s"
  have 1: "s = takeWhile isspace s @ ?t" by simp
  have 2: "?t = strip s @ rev (takeWhile isspace (rev ?t))"
    unfolding strip_def by (rule rev_dropWhile_split)
  have "s = takeWhile isspace s @ strip s @ rev (takeWhile isspace (rev ?t))"
    using 1 2 by metis
  moreover have "\<forall>c \<in> set (takeWhile isspace s). isspace c" by (auto dest: set_takeWhileD)
  moreover have "\<forall>c \<in> set (rev (takeWhile isspace (rev ?t))). isspace c" by (auto dest: set_takeWhileD)
  ultimately show ?thesis by blast
qed

lemma set_strip: "set (strip s) \<subseteq> set s"
  unfolding strip_def by (auto dest!: set_dropWhileD)

lemma nows_strip: "successively (\<lambda>a b. \<not> (isspace a \<and> isspace b)) s \<Longrightarrow> successively (\<lambda>a b. \<not> (isspace a \<and> isspace b)) (strip s)"
proof -
  assume a: "successively (\<lambda>a b. \<not> (isspace a \<and> isspace b)) s"
  obtain x y where "s = x @ strip s @ y" using strip_prefix_suffix by blast
  with a have "successively (\<lambda>a b. \<not> (isspace a \<and> isspace b)) (x @ strip s @ y)" by simp
  then show ?thesis by (simp add: successively_append_iff)
qed

lemma strip_ends: "strip s \<noteq> [] \<Longrightarrow> \<not> isspace (hd (strip s)) \<and> \<not> isspace (last (strip s))"
proof -
  assume ne: "strip s \<noteq> []"
  let ?t = "dropWhile isspace s"
  let ?u = "dropWhile isspace (rev ?t)"
  from ne have une: "?u \<noteq> []" by (simp add: strip_def)
  then have "\<not> isspace (hd ?u)" by (rule hd_dropWhile)
  with une have l: "\<not> isspace (last (strip s))" by (simp add: strip_def last_rev)
  from une have tne: "?t \<noteq> []" by (cases "?t = []") simp_all
  then have ht: "\<not> isspace (hd ?t)" by (rule hd_dropWhile)
  have "?t = strip s @ rev (takeWhile isspace (rev ?t))"
    unfolding strip_def by (rule rev_dropWhile_split)
  then have "hd ?t = hd (strip s @ rev (takeWhile isspace (rev ?t)))" by simp
  with ne have "hd ?t = hd (strip s)" by simp
  with ht l show ?thesis by simp
qed

lemma strip_id: "s = [] \<or> (\<not> isspace (hd s) \<and> \<not> isspace (last s)) \<Longrightarrow> strip s = s"
proof -
  assume a: "s = [] \<or> (\<not> isspace (hd s) \<and> \<not> isspace (last s))"
  then have 1: "dropWhile isspace s = s" by (auto simp: dropWhile_eq_self_iff)
  from a have "rev s = [] \<or> \<not> isspace (hd (rev s))" by (auto simp: hd_rev)
  then have "dropWhile isspace (rev s) = rev s" by (simp add: dropWhile_eq_self_iff)
  with 1 show ?thesis by (simp add: strip_def)
qed

lemma isspace_NL: "isspace NL"
  by (simp add: isspace_def NL_def)

lemma isspace_blank: "isspace (CHR '' '')"
  by (simp add: isspace_def)

lemma not_isspace_NUL: "\<not> isspace NUL"
  by (simp add: isspace_def NUL_def)

lemma NL_not_blank: "NL \<noteq> CHR '' ''"
  by (simp add: NL_def)

lemma clean_text_unfold:
  "s \<noteq> [] \<Longrightarrow> clean_text s = strip (re_sub_plus isspace (CHR '' '') (replace_nul s))"
proof -
  assume ne: "s \<noteq> []"
  let ?v = "re_sub_plus isspace (CHR '' '') (replace_nul s)"
  have "successively (\<lambda>a b. \<not> (isspace a \<and> isspace b)) ?v"
    by (rule nows_re_sub) (rule isspace_blank)
  then have 1: "successively (\<lambda>a b. \<not> (a = NL \<and> b = NL)) ?v"
    by (rule successively_mono) (auto simp: isspace_NL)
  have "re_sub_plus (\<lambda>c. c = NL) NL ?v = ?v"
    by (rule re_sub_id) (use 1 in simp_all)
  with ne show ?thesis by (simp add: clean_text_def)
qed

lemma clean_text_normal:
  "NUL \<notin> set (clean_text s)
   \<and> (\<forall>c \<in> set (clean_text s). isspace c \<longrightarrow> c = CHR '' '')
   \<and> successively (\<lambda>a b. \<not> (isspace a \<and> isspace b)) (clean_text s)
   \<and> (clean_text s = [] \<or> (\<not> isspace (hd (clean_text s)) \<and> \<not> isspace (last (clean_text s))))"
proof (cases "s = []")
  case True
  then show ?thesis by (simp add: clean_text_def)
next
  case False
  let ?u = "replace_nul s"
  let ?v = "re_sub_plus isspace (CHR '' '') ?u"
  have r: "clean_text s = strip ?v" using False by (rule clean_text_unfold)
  have sv: "set ?v \<subseteq> insert (CHR '' '') {c \<in> set ?u. \<not> isspace c}" by (rule set_re_sub)
  have su: "NUL \<notin> set ?u" by (simp add: replace_nul_def)
  have "NUL \<noteq> CHR '' ''" by (simp add: NUL_def)
  with sv su have nv: "NUL \<notin> set ?v" by auto
  from sv have wv: "\<forall>c \<in> set ?v. isspace c \<longrightarrow> c = CHR '' ''" by auto
  have ss: "set (strip ?v) \<subseteq> set ?v" by (rule set_strip)
  have 1: "NUL \<notin> set (strip ?v)" using nv ss by auto
  have 2: "\<forall>c \<in> set (strip ?v). isspace c \<longrightarrow> c = CHR '' ''" using wv ss by auto
  have "successively (\<lambda>a b. \<not> (isspace a \<and> isspace b)) ?v"
    by (rule nows_re_sub) (rule isspace_blank)
  then have 3: "successively (\<lambda>a b. \<not> (isspace a \<and> isspace b)) (strip ?v)"
    by (rule nows_strip)
  have 4: "strip ?v = [] \<or> (\<not> isspace (hd (strip ?v)) \<and> \<not> isspace (last (strip ?v)))"
    using strip_ends by blast
  show ?thesis unfolding r using 1 2 3 4 by blast
qed

lemma clean_text_fixed:
  assumes "NUL \<notin> set r"
    and "\<forall>c \<in> set r. isspace c \<longrightarrow> c = CHR '' ''"
    and "successively (\<lambda>a b. \<not> (isspace a \<and> isspace b)) r"
    and "r = [] \<or> (\<not> isspace (hd r) \<and> \<not> isspace (last r))"
  shows "clean_text r = r"
proof (cases "r = []")
  case True
  then show ?thesis by (simp add: clean_text_def)
next
  case False
  have u: "replace_nul r = r" using assms(1) by (auto simp: replace_nul_def filter_id_conv)
  have v: "re_sub_plus isspace (CHR '' '') r = r"
    by (rule re_sub_id) (use assms in simp_all)
  have "strip r = r" using assms(4) by (rule strip_id)
  with u v show ?thesis by (simp add: clean_text_unfold[OF False])
qed

text \<open>
  Claim C10. \<open>clean_text\<close> is idempotent, and its result contains no NUL character, no
  two adjacent whitespace characters, and neither starts nor ends with whitespace.
\<close>

theorem clean_text_idempotent_normalised:
  "clean_text (clean_text s) = clean_text s
   \<and> NUL \<notin> set (clean_text s)
   \<and> (\<forall>i. Suc i < length (clean_text s) \<longrightarrow>
          \<not> (isspace (clean_text s ! i) \<and> isspace (clean_text s ! Suc i)))
   \<and> (clean_text s \<noteq> [] \<longrightarrow>
          \<not> isspace (hd (clean_text s)) \<and> \<not> isspace (last (clean_text s)))"
proof -
  note n = clean_text_normal[of s]
  have 1: "clean_text (clean_text s) = clean_text s"
    by (rule clean_text_fixed) (use n in blast)+
  have 3: "\<forall>i. Suc i < length (clean_text s) \<longrightarrow>
          \<not> (isspace (clean_text s ! i) \<and> isspace (clean_text s ! Suc i))"
    using n by (simp add: successively_conv_nth)
  show ?thesis using 1 3 n by blast
qed

text \<open>The claim at an input with NUL characters, whitespace runs and a trailing newline.\<close>

theorem clean_text_idempotent_normalised_witness:
  "clean_text [CHR '' '', NUL, CHR ''a'', NUL, CHR '' '', NUL, NL, CHR ''b'', NL] = ''a b''
   \<and> clean_text ''a b'' = ''a b''
   \<and> Suc 0 < length ''a b''
   \<and> \<not> (isspace (''a b'' ! 0) \<and> isspace (''a b'' ! Suc 0))
   \<and> ''a b'' \<noteq> []
   \<and> \<not> isspace (hd ''a b'') \<and> \<not> isspace (last ''a b'')"
proof -
  have e: "clean_text [CHR '' '', NUL, CHR ''a'', NUL, CHR '' '', NUL, NL, CHR ''b'', NL] = ''a b''"
    by code_simp
  show ?thesis
    using clean_text_idempotent_normalised
      [of "[CHR '' '', NUL, CHR ''a'', NUL, CHR '' '', NUL, NL, CHR ''b'', NL]"]
    unfolding e by simp
qed

section \<open>Properties of the persistent store\<close>

subsection \<open>Transactions\<close>

lemma get_cursor_Inr: "work db = (Inr v, db') \<Longrightarrow> get_cursor work db = (Inr v, commit db')"
  by (simp add: get_cursor_def)

lemma get_cursor_Inl:
  "work db = (Inl (Exception e), db') \<Longrightarrow>
   get_cursor work db = (Inl (Exception e), rollback db')"
  by (simp add: get_cursor_def)

text \<open>
  Claim C3, as stated, fails on the initial store in two ways. Work that runs the repair
  step (which commits on the shared connection) and then raises an \<^verbatim>\<open>Exception\<close> has the
  exception handed on, but the committed store differs from the one before the call.
  Work that changes rows and is interrupted by \<^verbatim>\<open>KeyboardInterrupt\<close> is not rolled back: its
  changes stay pending on the connection, and the next successful call commits them.
\<close>

theorem get_cursor_rollback_counterexample:
  "txn (initial_db 0) = disk (initial_db 0)
   \<and> fst (get_cursor work_repairs_then_fails (initial_db 0))
       = Inl (Exception (OperationalError ''disk I/O error''))
   \<and> disk (snd (get_cursor work_repairs_then_fails (initial_db 0))) \<noteq> disk (initial_db 0)
   \<and> fst (get_cursor work_interrupted (initial_db 0)) = Inl KeyboardInterrupt
   \<and> txn (snd (get_cursor work_interrupted (initial_db 0))) \<noteq> txn (initial_db 0)
   \<and> disk (snd (get_file_content 1 (snd (get_cursor work_interrupted (initial_db 0)))))
       \<noteq> disk (initial_db 0)"
  by code_simp

text \<open>
  Claim C3, amended. Work run under \<open>get_cursor\<close> that returns a value has its changes
  committed and its value handed to the caller. Work that raises an instance of
  \<^verbatim>\<open>Exception\<close> has the same exception handed to the caller and the connection rolled back
  to the committed store; that store is the one from before the call when the work has not
  committed by itself, and the whole database state is unchanged when, in addition, no
  transaction was open before the call. What is raised and is no instance of
  \<^verbatim>\<open>Exception\<close> is handed to the caller with the connection as the work left it.
\<close>

theorem get_cursor_commits_or_rolls_back:
  "(work db = (Inr v, db') \<longrightarrow>
      get_cursor work db = (Inr v, \<lparr>disk = txn db', txn = txn db'\<rparr>))
   \<and> (work db = (Inl (Exception e), db') \<longrightarrow>
      get_cursor work db = (Inl (Exception e), \<lparr>disk = disk db', txn = disk db'\<rparr>))
   \<and> (work db = (Inl (Exception e), db') \<and> disk db' = disk db \<longrightarrow>
      get_cursor work db = (Inl (Exception e), \<lparr>disk = disk db, txn = disk db\<rparr>))
   \<and> (work db = (Inl (Exception e), db') \<and> disk db' = disk db \<and> txn db = disk db \<longrightarrow>
      get_cursor work db = (Inl (Exception e), db))
   \<and> (work db = (Inl r, db') \<and> \<not> is_Exception r \<longrightarrow>
      get_cursor work db = (Inl r, db'))"
  by (cases db') (auto simp: get_cursor_def commit_def rollback_def)

subsection \<open>Reading and activating\<close>

lemma rowcount_pos_iff: "0 < rowcount_session sid st \<longleftrightarrow> session_exists sid st"
  by (auto simp: rowcount_session_def session_exists_def filter_empty_conv)

lemma rowcount_deactivate: "rowcount_session sid (sql_deactivate_all st) = rowcount_session sid st"
  by (simp add: rowcount_session_def sql_deactivate_all_def filter_map o_def)

text \<open>
  Claim C5. \<open>set_active_session\<close> returns whether a session with the given id exists;
  afterwards a session is active exactly when its id is the given one, that session's
  last-accessed time is the clock reading, and nothing else in the store has changed.
\<close>

theorem set_active_session_effect:
  "\<exists>db'. set_active_session sid now db = (Inr (session_exists sid (txn db)), db')
     \<and> txn db' = disk db'
     \<and> sessions (disk db') =
         map (\<lambda>r. r\<lparr>is_active := (s_id r = sid),
                     last_accessed := (if s_id r = sid then now else last_accessed r)\<rparr>)
           (sessions (txn db))
     \<and> files (disk db') = files (txn db)
     \<and> chats (disk db') = chats (txn db)"
  by (simp add: set_active_session_def get_cursor_def execute_def commit_def Let_def
      rowcount_pos_iff rowcount_deactivate sql_activate_def sql_deactivate_all_def
      session_exists_def o_def image_image)

lemma find_unique:
  "distinct (map k xs) \<Longrightarrow> x \<in> set xs \<Longrightarrow> find (\<lambda>y. k y = k x) xs = Some x"
  by (induction xs) (auto simp: image_iff)

lemma find_absent: "i \<notin> set (map k xs) \<Longrightarrow> find (\<lambda>y. k y = i) xs = None"
  by (induction xs) auto

lemma get_file_content_row_or_empty:
  "(\<forall>f. distinct (map f_id (files (txn db))) \<and> f \<in> set (files (txn db)) \<and> f_id f = fid
        \<longrightarrow> fst (get_file_content fid db) = Inr (content_text f))
   \<and> (fid \<notin> set (map f_id (files (txn db)))
        \<longrightarrow> fst (get_file_content fid db) = Inr (Some []))
   \<and> txn (snd (get_file_content fid db)) = txn db"
  by (auto simp: get_file_content_def get_cursor_def commit_def find_unique find_absent)

text \<open>
  Claim C6. File 4 of the store exists and its text is NULL. \<open>get_file_content\<close> returns
  Python's \<open>None\<close> for it, where the claim has the empty string for an absent text; for the
  id 99, which no file has, it returns the empty string.
\<close>

theorem get_file_content_null_text_returns_none:
  "f_id (files (txn example_db_null_text) ! 3) = 4
   \<and> content_text (files (txn example_db_null_text) ! 3) = None
   \<and> fst (get_file_content 4 example_db_null_text) = Inr None
   \<and> fst (get_file_content 4 example_db_null_text) \<noteq> Inr (Some [])
   \<and> fst (get_file_content 99 example_db_null_text) = Inr (Some [])"
  by code_simp

text \<open>
  Claim C4. \<open>get_session_content\<close> returns the texts of the session's files whose text is
  neither NULL nor empty, each exactly once (as a multiset), joined by two newlines; it
  returns the empty string when the session has no such file.
\<close>

theorem get_session_content_joins_texts:
  "\<exists>texts. fst (get_session_content sid db) = Inr (py_join [NL, NL] texts)
     \<and> mset texts =
         image_mset (the \<circ> content_text)
           (filter_mset (\<lambda>f. f_session_id f = sid \<and> content_text f \<noteq> None
                              \<and> content_text f \<noteq> Some [])
              (mset (files (txn db))))
     \<and> ((\<forall>f \<in> set (files (txn db)).
            f_session_id f = sid \<longrightarrow> content_text f = None \<or> content_text f = Some [])
          \<longrightarrow> fst (get_session_content sid db) = Inr [])"
proof -
  let ?P = "\<lambda>f. f_session_id f = sid \<and> content_text f \<noteq> None \<and> content_text f \<noteq> Some []"
  let ?texts = "map (the \<circ> content_text) (filter ?P (files (txn db)))"
  have 1: "fst (get_session_content sid db) = Inr (py_join [NL, NL] ?texts)"
    by (simp add: get_session_content_def get_cursor_def Let_def)
  have 2: "mset ?texts = image_mset (the \<circ> content_text) (filter_mset ?P (mset (files (txn db))))"
    by simp
  have 3: "(\<forall>f \<in> set (files (txn db)).
            f_session_id f = sid \<longrightarrow> content_text f = None \<or> content_text f = Some [])
          \<longrightarrow> fst (get_session_content sid db) = Inr []"
  proof
    assume "\<forall>f \<in> set (files (txn db)).
            f_session_id f = sid \<longrightarrow> content_text f = None \<or> content_text f = Some []"
    then have "filter ?P (files (txn db)) = []"
      by (auto simp: filter_empty_conv)
    then show "fst (get_session_content sid db) = Inr []"
      unfolding 1 by simp
  qed
  from 1 2 3 show ?thesis by blast
qed

subsection \<open>Deleting a session\<close>


lemma ensure_active_session_eq:
  "ensure_active_session now db =
     (Inr (), (case find is_active (sessions (txn db)) of
                 None \<Rightarrow> \<lparr>disk = sql_insert_session ''Default Session'' True now (txn db),
                           txn = sql_insert_session ''Default Session'' True now (txn db)\<rparr>
               | Some r \<Rightarrow> \<lparr>disk = txn db, txn = txn db\<rparr>))"
  by (cases db) (simp add: ensure_active_session_def get_cursor_def execute_def commit_def
      split: option.split)

lemma delete_session_eq:
  "session_exists sid (txn db) \<Longrightarrow>
   delete_session sid now db =
     (Inr True, snd (ensure_active_session now (execute (sql_delete_session sid) db)))"
  by (simp add: delete_session_def get_cursor_def Let_def rowcount_pos_iff
      ensure_active_session_eq commit_def split: option.split)

lemma delete_session_absent:
  "\<not> session_exists sid (txn db) \<Longrightarrow>
   delete_session sid now db = (Inr False, \<lparr>disk = txn db, txn = txn db\<rparr>)"
  by (cases db) (simp add: delete_session_def get_cursor_def Let_def rowcount_pos_iff
      execute_def sql_delete_session_def commit_def)

lemma sessions_after_delete:
  "session_exists sid st \<Longrightarrow>
   sessions (sql_delete_session sid st) = filter (\<lambda>r. s_id r \<noteq> sid) (sessions st)
   \<and> files (sql_delete_session sid st) = filter (\<lambda>f. f_session_id f \<noteq> sid) (files st)
   \<and> chats (sql_delete_session sid st) = filter (\<lambda>c. c_session_id c \<noteq> sid) (chats st)
   \<and> seq_sessions (sql_delete_session sid st) = seq_sessions st"
  using rowcount_pos_iff[of sid st] by (simp add: sql_delete_session_def)

lemma find_Some_member: "find P xs = Some x \<Longrightarrow> x \<in> set xs \<and> P x"
  by (induction xs) (auto split: if_splits)

text \<open>
  Claim C2. Deleting a session that exists (in a sessions table that satisfies its key
  constraints) returns \<open>True\<close>, removes the session row and exactly the files and chats
  that belong to it, keeps the other sessions, and leaves an active session behind.
\<close>

theorem delete_session_cascade:
  assumes wf: "wf_sessions (txn db)" and ex: "session_exists sid (txn db)"
  shows "\<exists>db' extra. delete_session sid now db = (Inr True, db')
     \<and> txn db' = disk db'
     \<and> \<not> session_exists sid (disk db')
     \<and> sessions (disk db') = filter (\<lambda>r. s_id r \<noteq> sid) (sessions (txn db)) @ extra
     \<and> files (disk db') = filter (\<lambda>f. f_session_id f \<noteq> sid) (files (txn db))
     \<and> chats (disk db') = filter (\<lambda>c. c_session_id c \<noteq> sid) (chats (txn db))
     \<and> (\<exists>r \<in> set (sessions (disk db')). is_active r)"
proof -
  let ?st = "sql_delete_session sid (txn db)"
  let ?kept = "filter (\<lambda>r. s_id r \<noteq> sid) (sessions (txn db))"
  let ?db' = "snd (ensure_active_session now (execute (sql_delete_session sid) db))"
  note del = sessions_after_delete[OF ex]
  from ex wf have sid_le: "sid \<le> seq_sessions (txn db)"
    by (auto simp: session_exists_def wf_sessions_def list_all_iff)
  have res: "delete_session sid now db = (Inr True, ?db')"
    using ex by (rule delete_session_eq)
  show ?thesis
  proof (cases "find is_active ?kept")
    case None
    let ?new = "\<lparr>s_id = seq_sessions (txn db) + 1, session_name = ''Default Session'',
                  s_created_at = now, is_active = True, last_accessed = now\<rparr>"
    have d: "disk ?db' = sql_insert_session ''Default Session'' True now ?st"
      and t: "txn ?db' = disk ?db'"
      using None del by (simp_all add: ensure_active_session_eq execute_def)
    have s: "sessions (disk ?db') = ?kept @ [?new]"
      unfolding d using del by (simp add: sql_insert_session_def)
    have f: "files (disk ?db') = filter (\<lambda>f. f_session_id f \<noteq> sid) (files (txn db))"
      and c: "chats (disk ?db') = filter (\<lambda>c. c_session_id c \<noteq> sid) (chats (txn db))"
      unfolding d using del by (simp_all add: sql_insert_session_def)
    have ne: "\<not> session_exists sid (disk ?db')"
      using sid_le by (auto simp: session_exists_def s)
    have a: "\<exists>r \<in> set (sessions (disk ?db')). is_active r"
      unfolding s by simp
    from res t ne s f c a show ?thesis by blast
  next
    case (Some r)
    have d: "disk ?db' = ?st" and t: "txn ?db' = disk ?db'"
      using Some del by (simp_all add: ensure_active_session_eq execute_def)
    have s: "sessions (disk ?db') = ?kept @ []"
      unfolding d using del by simp
    have f: "files (disk ?db') = filter (\<lambda>f. f_session_id f \<noteq> sid) (files (txn db))"
      and c: "chats (disk ?db') = filter (\<lambda>c. c_session_id c \<noteq> sid) (chats (txn db))"
      unfolding d using del by simp_all
    have ne: "\<not> session_exists sid (disk ?db')"
      by (auto simp: session_exists_def s)
    from Some have "r \<in> set ?kept \<and> is_active r"
      by (rule find_Some_member)
    then have a: "\<exists>r \<in> set (sessions (disk ?db')). is_active r"
      unfolding s by auto
    from res t ne s f c a show ?thesis by blast
  qed
qed

subsection \<open>Adding files and chats\<close>

lemma touch_nth:
  "i < length (sessions st) \<Longrightarrow>
   sessions (sql_touch_session sid now st) ! i =
     (if s_id (sessions st ! i) = sid then (sessions st ! i)\<lparr>last_accessed := now\<rparr>
      else sessions st ! i)"
  by (simp add: sql_touch_session_def)

text \<open>
  Claim C8, as stated, fails when the clock reading of the update is earlier than the
  stored time: session 2 of the example store was last accessed at 6, and \<open>add_file\<close> and
  \<open>add_chat\<close> with the clock at 5 set its last-accessed time to 5.
\<close>

theorem add_file_add_chat_clock_counterexample:
  "session_exists 2 (txn example_db)
   \<and> s_id (sessions (txn example_db) ! 1) = 2
   \<and> last_accessed (sessions (txn example_db) ! 1) = 6
   \<and> last_accessed (sessions (disk (snd (add_file 2 ''notes.pdf'' ''data/uploads/notes.pdf''
        (Some 10) (Some ''Notes.'') (Some ''application/pdf'') 5 5 example_db))) ! 1) = 5
   \<and> last_accessed (sessions (disk (snd (add_chat 2 ''Why?'' ''Because.'' 5 5 example_db))) ! 1) = 5
   \<and> \<not> last_accessed (sessions (txn example_db) ! 1)
        \<le> last_accessed (sessions (disk (snd (add_file 2 ''notes.pdf'' ''data/uploads/notes.pdf''
             (Some 10) (Some ''Notes.'') (Some ''application/pdf'') 5 5 example_db))) ! 1)
   \<and> \<not> last_accessed (sessions (txn example_db) ! 1)
        \<le> last_accessed (sessions (disk (snd (add_chat 2 ''Why?'' ''Because.'' 5 5 example_db))) ! 1)"
  by code_simp

text \<open>
  Claim C8, amended. For an existing session, \<open>add_file\<close> and \<open>add_chat\<close> each append their
  row and, in the same committed transaction, set the last-accessed time of the owning
  session to the clock reading of the update, whatever the stored time was, leaving every
  other session row as it was.
\<close>

theorem add_file_add_chat_touch_session:
  assumes ex: "session_exists sid (txn db)"
  shows "(\<exists>db'. add_file sid name path fsize content ftype now_insert now_update db
              = (Inr (seq_files (txn db) + 1), db')
           \<and> txn db' = disk db'
           \<and> files (disk db') = files (txn db) @
               [\<lparr>f_id = seq_files (txn db) + 1, f_session_id = sid, filename = name,
                 filepath = path, filesize = fsize, content_text = content,
                 upload_time = now_insert, file_type = ftype\<rparr>]
           \<and> chats (disk db') = chats (txn db)
           \<and> length (sessions (disk db')) = length (sessions (txn db))
           \<and> (\<forall>i < length (sessions (txn db)).
                 sessions (disk db') ! i =
                   (if s_id (sessions (txn db) ! i) = sid
                    then (sessions (txn db) ! i)\<lparr>last_accessed := now_update\<rparr>
                    else sessions (txn db) ! i)))
       \<and> (\<exists>db'. add_chat sid q a now_insert now_update db
              = (Inr (seq_chats (txn db) + 1), db')
           \<and> txn db' = disk db'
           \<and> chats (disk db') = chats (txn db) @
               [\<lparr>c_id = seq_chats (txn db) + 1, c_session_id = sid, question = q, answer = a,
                 c_created_at = now_insert\<rparr>]
           \<and> files (disk db') = files (txn db)
           \<and> length (sessions (disk db')) = length (sessions (txn db))
           \<and> (\<forall>i < length (sessions (txn db)).
                 sessions (disk db') ! i =
                   (if s_id (sessions (txn db) ! i) = sid
                    then (sessions (txn db) ! i)\<lparr>last_accessed := now_update\<rparr>
                    else sessions (txn db) ! i)))"
proof -
  have 1: "\<exists>db'. add_file sid name path fsize content ftype now_insert now_update db
              = (Inr (seq_files (txn db) + 1), db')
           \<and> txn db' = disk db'
           \<and> files (disk db') = files (txn db) @
               [\<lparr>f_id = seq_files (txn db) + 1, f_session_id = sid, filename = name,
                 filepath = path, filesize = fsize, content_text = content,
                 upload_time = now_insert, file_type = ftype\<rparr>]
           \<and> chats (disk db') = chats (txn db)
           \<and> length (sessions (disk db')) = length (sessions (txn db))
           \<and> (\<forall>i < length (sessions (txn db)).
                 sessions (disk db') ! i =
                   (if s_id (sessions (txn db) ! i) = sid
                    then (sessions (txn db) ! i)\<lparr>last_accessed := now_update\<rparr>
                    else sessions (txn db) ! i))"
    using ex
    by (simp add: add_file_def get_cursor_def execute_def commit_def Let_def
        sql_insert_file_def sql_touch_session_def)
  have 2: "\<exists>db'. add_chat sid q a now_insert now_update db
              = (Inr (seq_chats (txn db) + 1), db')
           \<and> txn db' = disk db'
           \<and> chats (disk db') = chats (txn db) @
               [\<lparr>c_id = seq_chats (txn db) + 1, c_session_id = sid, question = q, answer = a,
                 c_created_at = now_insert\<rparr>]
           \<and> files (disk db') = files (txn db)
           \<and> length (sessions (disk db')) = length (sessions (txn db))
           \<and> (\<forall>i < length (sessions (txn db)).
                 sessions (disk db') ! i =
                   (if s_id (sessions (txn db) ! i) = sid
                    then (sessions (txn db) ! i)\<lparr>last_accessed := now_update\<rparr>
                    else sessions (txn db) ! i))"
    using ex
    by (simp add: add_chat_def get_cursor_def execute_def commit_def Let_def
        sql_insert_chat_def sql_touch_session_def)
  from 1 2 show ?thesis by blast
qed

subsection \<open>The single active session\<close>

lemma count_key:
  "distinct (map k xs) \<Longrightarrow> length (filter (\<lambda>r. k r = i) xs) = (if i \<in> k ` set xs then 1 else 0)"
  by (induction xs) (auto simp: image_iff)


lemma wf_insert: "wf_sessions st \<Longrightarrow> wf_sessions (sql_insert_session n a now st)"
  by (fastforce simp: wf_sessions_def sql_insert_session_def list_all_iff)

lemma wf_deactivate: "wf_sessions st \<Longrightarrow> wf_sessions (sql_deactivate_all st)"
  by (simp add: wf_sessions_def sql_deactivate_all_def list_all_iff o_def)

lemma wf_activate: "wf_sessions st \<Longrightarrow> wf_sessions (sql_activate sid now st)"
proof -
  have "map s_id (map (\<lambda>r. if s_id r = sid then r\<lparr>is_active := True, last_accessed := now\<rparr> else r)
          (sessions st)) = map s_id (sessions st)"
    by (induction "sessions st") auto
  moreover assume "wf_sessions st"
  ultimately show ?thesis
    by (auto simp: wf_sessions_def sql_activate_def list_all_iff simp del: map_map)
qed

lemma wf_delete: "wf_sessions st \<Longrightarrow> wf_sessions (sql_delete_session sid st)"
  by (auto simp: wf_sessions_def sql_delete_session_def list_all_iff distinct_map_filter)

lemma active_deactivate: "active_sessions (sql_deactivate_all st) = 0"
  by (simp add: active_sessions_def sql_deactivate_all_def filter_map o_def)

lemma active_insert:
  "active_sessions (sql_insert_session n True now st) = Suc (active_sessions st)"
  by (simp add: active_sessions_def sql_insert_session_def)

lemma create_session_txn:
  "snd (create_session n stamp now d) =
     \<lparr>disk = sql_insert_session (case n of None \<Rightarrow> ''Session '' @ stamp
                                   | Some m \<Rightarrow> if m = [] then ''Session '' @ stamp else m)
               True now (sql_deactivate_all (txn d)),
      txn = sql_insert_session (case n of None \<Rightarrow> ''Session '' @ stamp
                                   | Some m \<Rightarrow> if m = [] then ''Session '' @ stamp else m)
               True now (sql_deactivate_all (txn d))\<rparr>"
  by (cases d) (simp add: create_session_def get_cursor_def execute_def commit_def Let_def)

lemma create_session_inv: "wf_sessions (txn d) \<Longrightarrow> session_inv (snd (create_session n stamp now d))"
  unfolding create_session_txn session_inv_def
  by (simp add: wf_insert wf_deactivate active_insert active_deactivate)

lemma set_active_session_txn:
  "snd (set_active_session sid now d) =
     \<lparr>disk = sql_activate sid now (sql_deactivate_all (txn d)),
      txn = sql_activate sid now (sql_deactivate_all (txn d))\<rparr>"
  by (cases d) (simp add: set_active_session_def get_cursor_def execute_def commit_def Let_def)

lemma active_activate:
  "wf_sessions st \<Longrightarrow>
   active_sessions (sql_activate sid now (sql_deactivate_all st)) =
     (if session_exists sid st then 1 else 0)"
proof -
  assume wf: "wf_sessions st"
  have "filter is_active (map (\<lambda>r. if s_id r = sid then r\<lparr>is_active := True, last_accessed := now\<rparr> else r)
           (map (\<lambda>r. r\<lparr>is_active := False\<rparr>) (sessions st)))
        = map (\<lambda>r. r\<lparr>is_active := True, last_accessed := now\<rparr>) (filter (\<lambda>r. s_id r = sid) (sessions st))"
    by (induction "sessions st" arbitrary: st) (auto simp: filter_map o_def)
  then have "active_sessions (sql_activate sid now (sql_deactivate_all st))
      = length (filter (\<lambda>r. s_id r = sid) (sessions st))"
    by (simp add: active_sessions_def sql_activate_def sql_deactivate_all_def)
  also have "\<dots> = (if sid \<in> s_id ` set (sessions st) then 1 else 0)"
    using wf by (intro count_key) (simp add: wf_sessions_def)
  finally show ?thesis by (simp add: session_exists_def)
qed

lemma set_active_session_inv:
  "wf_sessions (txn d) \<Longrightarrow> session_exists sid (txn d) \<Longrightarrow>
   session_inv (snd (set_active_session sid now d))"
  unfolding set_active_session_txn session_inv_def
  by (simp add: wf_activate wf_deactivate active_activate)

lemma find_active_None: "find is_active (sessions st) = None \<Longrightarrow> active_sessions st = 0"
  by (simp add: active_sessions_def find_None_iff filter_empty_conv)

lemma find_active_Some: "find is_active (sessions st) = Some r \<Longrightarrow> 0 < active_sessions st"
  by (auto simp: active_sessions_def filter_empty_conv dest: find_Some_member)

lemma filter_filter_le: "length (filter P (filter Q xs)) \<le> length (filter P xs)"
  by (induction xs) auto

lemma active_delete_le: "active_sessions (sql_delete_session sid st) \<le> active_sessions st"
  unfolding active_sessions_def sql_delete_session_def
  by (simp add: filter_filter_le del: filter_filter)

lemma delete_session_inv:
  assumes "session_inv d"
  shows "session_inv (snd (delete_session sid now d))"
proof (cases "session_exists sid (txn d)")
  case False
  then show ?thesis using assms
    by (simp add: delete_session_absent session_inv_def)
next
  case True
  let ?st = "sql_delete_session sid (txn d)"
  from assms have wf: "wf_sessions ?st" by (simp add: session_inv_def wf_delete)
  from assms have le: "active_sessions ?st \<le> 1"
    using active_delete_le[of sid "txn d"] by (simp add: session_inv_def)
  show ?thesis
  proof (cases "find is_active (sessions ?st)")
    case None
    then have "active_sessions ?st = 0" by (rule find_active_None)
    with None wf True show ?thesis
      by (simp add: delete_session_eq ensure_active_session_eq execute_def session_inv_def
          wf_insert active_insert)
  next
    case (Some r)
    then have "0 < active_sessions ?st" by (rule find_active_Some)
    with le have "active_sessions ?st = 1" by simp
    with Some wf True show ?thesis
      by (simp add: delete_session_eq ensure_active_session_eq execute_def session_inv_def)
  qed
qed

lemma initial_db_inv: "session_inv (initial_db now)"
  by (simp add: initial_db_def init_db_def get_cursor_def commit_def ensure_active_session_eq
      empty_store_def session_inv_def wf_sessions_def active_sessions_def sql_insert_session_def)

lemma run_call_inv:
  "session_inv d \<Longrightarrow> targets_exist [c] d \<Longrightarrow> session_inv (run_call c d)"
proof (cases c)
  case (CreateSession n stamp now)
  assume "session_inv d"
  then have "wf_sessions (txn d)" by (simp add: session_inv_def)
  then show ?thesis unfolding CreateSession run_call.simps by (rule create_session_inv)
next
  case (SetActiveSession sid now)
  assume "session_inv d" and "targets_exist [c] d"
  then have "wf_sessions (txn d)" and "session_exists sid (txn d)"
    by (simp_all add: session_inv_def SetActiveSession)
  then show ?thesis unfolding SetActiveSession run_call.simps by (rule set_active_session_inv)
next
  case (DeleteSession sid now)
  assume "session_inv d"
  then show ?thesis unfolding DeleteSession run_call.simps by (rule delete_session_inv)
qed

lemma targets_exist_Cons:
  "targets_exist (c # cs) d \<longleftrightarrow> targets_exist [c] d \<and> targets_exist cs (run_call c d)"
  by (cases c) simp_all

lemma run_calls_inv:
  "session_inv d \<Longrightarrow> targets_exist cs d \<Longrightarrow> session_inv (run_calls cs d)"
proof (induction cs arbitrary: d)
  case Nil
  then show ?case by simp
next
  case (Cons c cs)
  from Cons.prems(2) have 1: "targets_exist [c] d" and 2: "targets_exist cs (run_call c d)"
    by (simp_all add: targets_exist_Cons[of c cs])
  from Cons.prems(1) 1 have "session_inv (run_call c d)" by (rule run_call_inv)
  then show ?case using 2 Cons.IH by simp
qed

lemma exactly_one_active_when_targets_exist:
  "targets_exist cs (initial_db now) \<Longrightarrow>
   active_sessions (disk (run_calls cs (initial_db now))) = 1"
  using run_calls_inv[OF initial_db_inv, of cs now] by (simp add: session_inv_def)

text \<open>
  Claim C1. On a new store, create session A (id 2), delete it, and then activate the id
  of the deleted session. After the first two calls one session is active. The third call
  returns \<open>False\<close>, and commits the deactivation of every session: no session is active.
\<close>

theorem stale_id_leaves_no_active_session:
  "active_sessions (disk (run_calls
      [CreateSession (Some ''A'') ''2024-01-01 10:00'' 1, DeleteSession 2 2] (initial_db 0))) = 1
   \<and> set_active_session 2 3 (run_calls
      [CreateSession (Some ''A'') ''2024-01-01 10:00'' 1, DeleteSession 2 2] (initial_db 0))
     = (Inr False, run_calls
      [CreateSession (Some ''A'') ''2024-01-01 10:00'' 1, DeleteSession 2 2, SetActiveSession 2 3]
        (initial_db 0))
   \<and> active_sessions (disk (run_calls
      [CreateSession (Some ''A'') ''2024-01-01 10:00'' 1, DeleteSession 2 2, SetActiveSession 2 3]
        (initial_db 0))) = 0"
  by code_simp

subsection \<open>Reset\<close>

lemma init_db_fresh:
  "init_db now \<lparr>disk = empty_store, txn = empty_store\<rparr> = (Inr (), initial_db now)"
  by (simp add: initial_db_def init_db_def get_cursor_def commit_def ensure_active_session_eq
      empty_store_def)

lemma initial_db_rows:
  "disk (initial_db now) =
     \<lparr>sessions = [\<lparr>s_id = 1, session_name = ''Default Session'', s_created_at = now,
                    is_active = True, last_accessed = now\<rparr>],
      files = [], chats = [], seq_sessions = 1, seq_files = 0, seq_chats = 0\<rparr>
   \<and> txn (initial_db now) = disk (initial_db now)"
  by (simp add: initial_db_def init_db_def get_cursor_def commit_def ensure_active_session_eq
      empty_store_def sql_insert_session_def)

lemma clear_all_data_body_ok:
  "(\<exists>w'. clear_all_data_body ev now w = (Inr (), w') \<and> w_db w' = initial_db now)
   \<longleftrightarrow> select_error ev = None \<and> remove_db_error ev = None \<and> makedirs_error ev = None
        \<and> init_error ev = None"
  by (auto simp: clear_all_data_body_def get_cursor_def Let_def init_db_fresh
      split: option.splits)




section \<open>Properties of text extraction\<close>

text \<open>
  Claim C9. \<open>extract_text_from_file\<close> always returns a string. A declared type of
  \<open>None\<close>, an unsupported format and a failure of the selected reader each yield a message
  as the returned text.
\<close>

theorem extract_text_from_file_never_raises:
  "(\<exists>text. extract_text_from_file rd file_path ft = Inr text)
   \<and> (ft = None \<longrightarrow>
        (\<exists>e. extract_dispatch rd file_path ft = Inl e
           \<and> extract_text_from_file rd file_path ft = Inr (''Error extracting text: '' @ str e)))
   \<and> (\<forall>t. ft = Some t \<and> \<not> py_in ''pdf'' (lower t) \<and> \<not> py_in ''text'' (lower t)
          \<and> \<not> py_in ''word'' (lower t) \<and> \<not> endswith file_path ''.pdf''
          \<and> \<not> endswith file_path ''.txt'' \<and> \<not> endswith file_path ''.docx''
        \<longrightarrow> extract_text_from_file rd file_path ft = Inr (''Unsupported file format: '' @ t))
   \<and> (\<forall>t e. ft = Some t \<and> (py_in ''pdf'' (lower t) \<or> endswith file_path ''.pdf'')
          \<and> read_pdf rd file_path = Inl e
        \<longrightarrow> extract_text_from_file rd file_path ft = Inr (''Error reading PDF: '' @ str e))
   \<and> (\<forall>t e. ft = Some t \<and> \<not> (py_in ''pdf'' (lower t) \<or> endswith file_path ''.pdf'')
          \<and> (py_in ''text'' (lower t) \<or> endswith file_path ''.txt'')
          \<and> read_txt rd file_path = Inl e
        \<longrightarrow> extract_text_from_file rd file_path ft = Inr (''Error reading TXT: '' @ str e))
   \<and> (\<forall>t e. ft = Some t \<and> \<not> (py_in ''pdf'' (lower t) \<or> endswith file_path ''.pdf'')
          \<and> \<not> (py_in ''text'' (lower t) \<or> endswith file_path ''.txt'')
          \<and> (py_in ''word'' (lower t) \<or> endswith file_path ''.docx'')
          \<and> read_docx rd file_path = Inl e
        \<longrightarrow> extract_text_from_file rd file_path ft = Inr (''Error reading DOCX: '' @ str e))"
proof -
  have 1: "\<exists>text. extract_text_from_file rd file_path ft = Inr text"
    by (simp add: extract_text_from_file_def split: sum.split)
  have 2: "ft = None \<longrightarrow>
        (\<exists>e. extract_dispatch rd file_path ft = Inl e
           \<and> extract_text_from_file rd file_path ft = Inr (''Error extracting text: '' @ str e))"
    by (simp add: extract_text_from_file_def extract_dispatch_def)
  have 3: "\<forall>t. ft = Some t \<and> \<not> py_in ''pdf'' (lower t) \<and> \<not> py_in ''text'' (lower t)
          \<and> \<not> py_in ''word'' (lower t) \<and> \<not> endswith file_path ''.pdf''
          \<and> \<not> endswith file_path ''.txt'' \<and> \<not> endswith file_path ''.docx''
        \<longrightarrow> extract_text_from_file rd file_path ft = Inr (''Unsupported file format: '' @ t)"
    by (simp add: extract_text_from_file_def extract_dispatch_def)
  have 4: "\<forall>t e. ft = Some t \<and> (py_in ''pdf'' (lower t) \<or> endswith file_path ''.pdf'')
          \<and> read_pdf rd file_path = Inl e
        \<longrightarrow> extract_text_from_file rd file_path ft = Inr (''Error reading PDF: '' @ str e)"
    by (simp add: extract_text_from_file_def extract_dispatch_def extract_pdf_def)
  have 5: "\<forall>t e. ft = Some t \<and> \<not> (py_in ''pdf'' (lower t) \<or> endswith file_path ''.pdf'')
          \<and> (py_in ''text'' (lower t) \<or> endswith file_path ''.txt'')
          \<and> read_txt rd file_path = Inl e
        \<longrightarrow> extract_text_from_file rd file_path ft = Inr (''Error reading TXT: '' @ str e)"
    by (simp add: extract_text_from_file_def extract_dispatch_def extract_txt_def)
  have 6: "\<forall>t e. ft = Some t \<and> \<not> (py_in ''pdf'' (lower t) \<or> endswith file_path ''.pdf'')
          \<and> \<not> (py_in ''text'' (lower t) \<or> endswith file_path ''.txt'')
          \<and> (py_in ''word'' (lower t) \<or> endswith file_path ''.docx'')
          \<and> read_docx rd file_path = Inl e
        \<longrightarrow> extract_text_from_file rd file_path ft = Inr (''Error reading DOCX: '' @ str e)"
    by (simp add: extract_text_from_file_def extract_dispatch_def extract_docx_def)
  from 1 2 3 4 5 6 show ?thesis by blast
qed

section \<open>The properties on example data\<close>

text \<open>
  On the initial store: work that inserts a session and returns 7 is committed; work that
  deactivates every session and then raises an \<^verbatim>\<open>Exception\<close> leaves the database as it was;
  the interrupted work leaves its changes on the connection.
\<close>

theorem get_cursor_commits_or_rolls_back_witness:
  "get_cursor (\<lambda>d. (Inr (7::int), execute (sql_insert_session ''x'' True 1) d)) (initial_db 0)
     = (Inr 7, \<lparr>disk = txn (execute (sql_insert_session ''x'' True 1) (initial_db 0)),
               txn = txn (execute (sql_insert_session ''x'' True 1) (initial_db 0))\<rparr>)
   \<and> disk (execute sql_deactivate_all (initial_db 0)) = disk (initial_db 0)
   \<and> txn (initial_db 0) = disk (initial_db 0)
   \<and> execute sql_deactivate_all (initial_db 0) \<noteq> initial_db 0
   \<and> get_cursor (\<lambda>d. (Inl (Exception (OperationalError ''database is locked'')) :: raised + int,
                         execute sql_deactivate_all d))
        (initial_db 0)
     = (Inl (Exception (OperationalError ''database is locked'')), initial_db 0)
   \<and> get_cursor work_interrupted (initial_db 0)
     = (Inl KeyboardInterrupt, execute sql_deactivate_all (initial_db 0))"
proof -
  have c: "disk (execute sql_deactivate_all (initial_db 0)) = disk (initial_db 0)"
    by (simp add: execute_def)
  have d: "txn (initial_db 0) = disk (initial_db 0)"
    using initial_db_rows[of 0] by simp
  have n: "execute sql_deactivate_all (initial_db 0) \<noteq> initial_db 0"
    by code_simp
  have 1: "get_cursor (\<lambda>d. (Inr (7::int), execute (sql_insert_session ''x'' True 1) d)) (initial_db 0)
     = (Inr 7, \<lparr>disk = txn (execute (sql_insert_session ''x'' True 1) (initial_db 0)),
               txn = txn (execute (sql_insert_session ''x'' True 1) (initial_db 0))\<rparr>)"
    using get_cursor_commits_or_rolls_back
      [where work = "\<lambda>d. (Inr (7::int), execute (sql_insert_session ''x'' True 1) d)"
         and db = "initial_db 0" and v = 7
         and db' = "execute (sql_insert_session ''x'' True 1) (initial_db 0)"]
    by simp
  have 2: "get_cursor (\<lambda>d. (Inl (Exception (OperationalError ''database is locked'')) :: raised + int,
                         execute sql_deactivate_all d))
        (initial_db 0)
     = (Inl (Exception (OperationalError ''database is locked'')), initial_db 0)"
    using get_cursor_commits_or_rolls_back
      [where work = "\<lambda>d. (Inl (Exception (OperationalError ''database is locked'')) :: raised + int,
                             execute sql_deactivate_all d)"
         and db = "initial_db 0" and e = "OperationalError ''database is locked''"
         and db' = "execute sql_deactivate_all (initial_db 0)"] c d
    by simp
  have 3: "get_cursor work_interrupted (initial_db 0)
     = (Inl KeyboardInterrupt, execute sql_deactivate_all (initial_db 0))"
    using get_cursor_commits_or_rolls_back
      [where work = work_interrupted and db = "initial_db 0" and r = KeyboardInterrupt
         and db' = "execute sql_deactivate_all (initial_db 0)"]
    by (simp add: work_interrupted_def)
  from 1 2 3 c d n show ?thesis by (intro conjI)
qed

text \<open>Deleting session 2 of the example store, which owns every file and chat of it.\<close>

theorem delete_session_cascade_witness:
  "wf_sessions (txn example_db) \<and> session_exists 2 (txn example_db)
   \<and> (\<exists>db' extra. delete_session 2 9 example_db = (Inr True, db')
        \<and> txn db' = disk db'
        \<and> \<not> session_exists 2 (disk db')
        \<and> sessions (disk db') = filter (\<lambda>r. s_id r \<noteq> 2) (sessions (txn example_db)) @ extra
        \<and> files (disk db') = filter (\<lambda>f. f_session_id f \<noteq> 2) (files (txn example_db))
        \<and> chats (disk db') = filter (\<lambda>c. c_session_id c \<noteq> 2) (chats (txn example_db))
        \<and> (\<exists>r \<in> set (sessions (disk db')). is_active r))
   \<and> files (txn example_db) \<noteq> [] \<and> chats (txn example_db) \<noteq> []
   \<and> filter (\<lambda>f. f_session_id f \<noteq> 2) (files (txn example_db)) = []
   \<and> filter (\<lambda>c. c_session_id c \<noteq> 2) (chats (txn example_db)) = []"
proof -
  have h1: "wf_sessions (txn example_db)" by code_simp
  have h2: "session_exists 2 (txn example_db)" by code_simp
  have 3: "files (txn example_db) \<noteq> []" by code_simp
  have 4: "chats (txn example_db) \<noteq> []" by code_simp
  have 5: "filter (\<lambda>f. f_session_id f \<noteq> 2) (files (txn example_db)) = []" by code_simp
  have 6: "filter (\<lambda>c. c_session_id c \<noteq> 2) (chats (txn example_db)) = []" by code_simp
  show ?thesis
    by (intro conjI h1 h2 3 4 5 6 delete_session_cascade[OF h1 h2])
qed

text \<open>Session 1 of the example store owns no file; session 2 owns two files with text and one with empty text.\<close>

theorem get_session_content_joins_texts_witness:
  "filter (\<lambda>f. f_session_id f = 1) (files (txn example_db)) = []
   \<and> fst (get_session_content 1 example_db) = Inr []
   \<and> fst (get_session_content 2 example_db)
       = Inr (''The sky is blue.'' @ [NL, NL] @ ''Grass is green.'')"
proof -
  have h: "\<forall>f \<in> set (files (txn example_db)).
       f_session_id f = 1 \<longrightarrow> content_text f = None \<or> content_text f = Some []"
    by code_simp
  have 1: "fst (get_session_content 1 example_db) = Inr []"
    using get_session_content_joins_texts[of 1 example_db] h by blast
  have 2: "fst (get_session_content 2 example_db)
       = Inr (''The sky is blue.'' @ [NL, NL] @ ''Grass is green.'')"
    by code_simp
  have e: "filter (\<lambda>f. f_session_id f = 1) (files (txn example_db)) = []" by code_simp
  from e 1 2 show ?thesis by (intro conjI)
qed

text \<open>Activating session 1 of the example store at time 7.\<close>

theorem set_active_session_effect_witness:
  "session_exists 1 (txn example_db)
   \<and> fst (set_active_session 1 7 example_db) = Inr True
   \<and> map is_active (sessions (disk (snd (set_active_session 1 7 example_db)))) = [True, False]
   \<and> map last_accessed (sessions (disk (snd (set_active_session 1 7 example_db)))) = [7, 6]"
proof -
  have h: "session_exists 1 (txn example_db)" by code_simp
  from set_active_session_effect[of 1 7 example_db]
  obtain db' where r: "set_active_session 1 7 example_db = (Inr (session_exists 1 (txn example_db)), db')"
    and s: "sessions (disk db') =
         map (\<lambda>r. r\<lparr>is_active := (s_id r = 1),
                     last_accessed := (if s_id r = 1 then 7 else last_accessed r)\<rparr>)
           (sessions (txn example_db))"
    by blast
  have 1: "fst (set_active_session 1 7 example_db) = Inr True"
    using r h by simp
  have e1: "map (\<lambda>r. s_id r = 1) (sessions (txn example_db)) = [True, False]" by code_simp
  have e2: "map (\<lambda>r. if s_id r = 1 then 7 else last_accessed r) (sessions (txn example_db)) = [7, 6]"
    by code_simp
  have 2: "map is_active (sessions (disk (snd (set_active_session 1 7 example_db)))) = [True, False]"
    using r s e1 by (simp add: o_def)
  have 3: "map last_accessed (sessions (disk (snd (set_active_session 1 7 example_db)))) = [7, 6]"
    using r s e2 by (simp add: o_def)
  from h 1 2 3 show ?thesis by (intro conjI)
qed


text \<open>
  Adding a file and a chat to session 2 of the example store, last accessed at 6, with the
  clock at 7 and 8.
\<close>

theorem add_file_add_chat_touch_session_witness:
  "session_exists 2 (txn example_db)
   \<and> fst (add_file 2 ''notes.pdf'' ''data/uploads/notes.pdf'' (Some 10) (Some ''Notes.'')
            (Some ''application/pdf'') 7 8 example_db) = Inr 4
   \<and> fst (add_chat 2 ''Why?'' ''Because.'' 7 8 example_db) = Inr 2
   \<and> s_id (sessions (txn example_db) ! 1) = 2
   \<and> last_accessed (sessions (txn example_db) ! 1) = 6
   \<and> last_accessed (sessions (disk (snd (add_file 2 ''notes.pdf'' ''data/uploads/notes.pdf''
        (Some 10) (Some ''Notes.'') (Some ''application/pdf'') 7 8 example_db))) ! 1) = 8
   \<and> last_accessed (sessions (disk (snd (add_chat 2 ''Why?'' ''Because.'' 7 8 example_db))) ! 1) = 8
   \<and> sessions (disk (snd (add_file 2 ''notes.pdf'' ''data/uploads/notes.pdf''
        (Some 10) (Some ''Notes.'') (Some ''application/pdf'') 7 8 example_db))) ! 0
       = sessions (txn example_db) ! 0
   \<and> sessions (disk (snd (add_chat 2 ''Why?'' ''Because.'' 7 8 example_db))) ! 0
       = sessions (txn example_db) ! 0"
proof -
  have h1: "session_exists 2 (txn example_db)" by code_simp
  have l0: "0 < length (sessions (txn example_db))" by code_simp
  have l1: "1 < length (sessions (txn example_db))" by code_simp
  have i1: "s_id (sessions (txn example_db) ! 1) = 2" by code_simp
  have i0: "s_id (sessions (txn example_db) ! 0) \<noteq> 2" by code_simp
  have la: "last_accessed (sessions (txn example_db) ! 1) = 6" by code_simp
  have sf: "seq_files (txn example_db) + 1 = 4" by code_simp
  have sc: "seq_chats (txn example_db) + 1 = 2" by code_simp
  note t = add_file_add_chat_touch_session[OF h1,
      of "''notes.pdf''" "''data/uploads/notes.pdf''" "Some 10" "Some ''Notes.''"
         "Some ''application/pdf''" 7 8 "''Why?''" "''Because.''"]
  from t obtain d1 where
    a: "add_file 2 ''notes.pdf'' ''data/uploads/notes.pdf'' (Some 10) (Some ''Notes.'')
            (Some ''application/pdf'') 7 8 example_db = (Inr (seq_files (txn example_db) + 1), d1)"
    and as: "\<forall>i < length (sessions (txn example_db)).
                 sessions (disk d1) ! i =
                   (if s_id (sessions (txn example_db) ! i) = 2
                    then (sessions (txn example_db) ! i)\<lparr>last_accessed := 8\<rparr>
                    else sessions (txn example_db) ! i)"
    by blast
  from t obtain d2 where
    b: "add_chat 2 ''Why?'' ''Because.'' 7 8 example_db = (Inr (seq_chats (txn example_db) + 1), d2)"
    and bs: "\<forall>i < length (sessions (txn example_db)).
                 sessions (disk d2) ! i =
                   (if s_id (sessions (txn example_db) ! i) = 2
                    then (sessions (txn example_db) ! i)\<lparr>last_accessed := 8\<rparr>
                    else sessions (txn example_db) ! i)"
    by blast
  have 1: "fst (add_file 2 ''notes.pdf'' ''data/uploads/notes.pdf'' (Some 10) (Some ''Notes.'')
            (Some ''application/pdf'') 7 8 example_db) = Inr 4"
    unfolding a using sf by simp
  have 2: "fst (add_chat 2 ''Why?'' ''Because.'' 7 8 example_db) = Inr 2"
    unfolding b using sc by simp
  from as l1 i1 have "sessions (disk d1) ! 1 = (sessions (txn example_db) ! 1)\<lparr>last_accessed := 8\<rparr>"
    by simp
  then have 3: "last_accessed (sessions (disk (snd (add_file 2 ''notes.pdf'' ''data/uploads/notes.pdf''
        (Some 10) (Some ''Notes.'') (Some ''application/pdf'') 7 8 example_db))) ! 1) = 8"
    unfolding a by simp
  from bs l1 i1 have "sessions (disk d2) ! 1 = (sessions (txn example_db) ! 1)\<lparr>last_accessed := 8\<rparr>"
    by simp
  then have 4: "last_accessed (sessions (disk (snd (add_chat 2 ''Why?'' ''Because.'' 7 8 example_db))) ! 1) = 8"
    unfolding b by simp
  from as l0 i0 have 5: "sessions (disk (snd (add_file 2 ''notes.pdf'' ''data/uploads/notes.pdf''
        (Some 10) (Some ''Notes.'') (Some ''application/pdf'') 7 8 example_db))) ! 0
       = sessions (txn example_db) ! 0"
    unfolding a by simp
  from bs l0 i0 have 6: "sessions (disk (snd (add_chat 2 ''Why?'' ''Because.'' 7 8 example_db))) ! 0
       = sessions (txn example_db) ! 0"
    unfolding b by simp
  from h1 1 2 i1 la 3 4 5 6 show ?thesis by (intro conjI)
qed

text \<open>With readers that fail: no declared type, an unsupported type, and each of the three formats.\<close>

theorem extract_text_from_file_never_raises_witness:
  "(\<exists>e. extract_dispatch failing_readers ''a.png'' None = Inl e
       \<and> extract_text_from_file failing_readers ''a.png'' None
           = Inr (''Error extracting text: '' @ str e))
   \<and> extract_text_from_file failing_readers ''a.png'' (Some ''image/png'')
       = Inr ''Unsupported file format: image/png''
   \<and> extract_text_from_file failing_readers ''a.bin'' (Some ''application/PDF'')
       = Inr ''Error reading PDF: No such file or directory''
   \<and> extract_text_from_file failing_readers ''a.txt'' (Some ''octet-stream'')
       = Inr ''Error reading TXT: Permission denied''
   \<and> extract_text_from_file failing_readers ''a.docx'' (Some ''octet-stream'')
       = Inr ''Error reading DOCX: Package not found''"
proof -
  have 1: "\<exists>e. extract_dispatch failing_readers ''a.png'' None = Inl e
       \<and> extract_text_from_file failing_readers ''a.png'' None
           = Inr (''Error extracting text: '' @ str e)"
    using extract_text_from_file_never_raises[of failing_readers "''a.png''" None] by blast
  have u: "\<not> py_in ''pdf'' (lower ''image/png'') \<and> \<not> py_in ''text'' (lower ''image/png'')
          \<and> \<not> py_in ''word'' (lower ''image/png'') \<and> \<not> endswith ''a.png'' ''.pdf''
          \<and> \<not> endswith ''a.png'' ''.txt'' \<and> \<not> endswith ''a.png'' ''.docx''"
    by code_simp
  have 2: "extract_text_from_file failing_readers ''a.png'' (Some ''image/png'')
       = Inr ''Unsupported file format: image/png''"
    using extract_text_from_file_never_raises[of failing_readers "''a.png''" "Some ''image/png''"] u
    by simp
  have p: "py_in ''pdf'' (lower ''application/PDF'')" by code_simp
  have rp: "read_pdf failing_readers ''a.bin'' = Inl (OSError ''No such file or directory'')"
    by (simp add: failing_readers_def)
  have 3: "extract_text_from_file failing_readers ''a.bin'' (Some ''application/PDF'')
       = Inr ''Error reading PDF: No such file or directory''"
    using extract_text_from_file_never_raises
      [of failing_readers "''a.bin''" "Some ''application/PDF''"] p rp
    by simp
  have t: "\<not> (py_in ''pdf'' (lower ''octet-stream'') \<or> endswith ''a.txt'' ''.pdf'')
      \<and> (py_in ''text'' (lower ''octet-stream'') \<or> endswith ''a.txt'' ''.txt'')"
    by code_simp
  have rt: "read_txt failing_readers ''a.txt'' = Inl (OSError ''Permission denied'')"
    by (simp add: failing_readers_def)
  have 4: "extract_text_from_file failing_readers ''a.txt'' (Some ''octet-stream'')
       = Inr ''Error reading TXT: Permission denied''"
    using extract_text_from_file_never_raises
      [of failing_readers "''a.txt''" "Some ''octet-stream''"] t rt
    by simp
  have d: "\<not> (py_in ''pdf'' (lower ''octet-stream'') \<or> endswith ''a.docx'' ''.pdf'')
      \<and> \<not> (py_in ''text'' (lower ''octet-stream'') \<or> endswith ''a.docx'' ''.txt'')
      \<and> (py_in ''word'' (lower ''octet-stream'') \<or> endswith ''a.docx'' ''.docx'')"
    by code_simp
  have rd: "read_docx failing_readers ''a.docx'' = Inl (OtherException ''Package not found'')"
    by (simp add: failing_readers_def)
  have 5: "extract_text_from_file failing_readers ''a.docx'' (Some ''octet-stream'')
       = Inr ''Error reading DOCX: Package not found''"
    using extract_text_from_file_never_raises
      [of failing_readers "''a.docx''" "Some ''octet-stream''"] d rd
    by simp
  from 1 2 3 4 5 show ?thesis by (intro conjI)
qed

end
